theory Spec2Isabelle
  imports Complex_Main "HOL-Library.Word"
begin

section \<open>Errors and the device transport\<close>

text \<open>
  Python exceptions are values. A function that can raise returns a pair: the
  outcome (\<open>Inl\<close> the exception, \<open>Inr\<close> the returned value) and the state
  as the exception or the return leaves it, since mutations made before a raise persist.
  \<open>TransportError c\<close> is whatever the device transport raises, with its payload.
\<close>

datatype error =
    TransportError int
  | ValueError
  | TypeError
  | IndexError
  | AttributeError
  | ImportError
  | QueueFull

type_synonym byte = "8 word"

text \<open>
  What \<open>Frame\<close> hands to the driver. \<open>FrameDataMatrix\<close> is
  \<open>run_command(SET_FRAME_DATA_MATRIX, frame_id, row, 0, width, data,
  transaction_id=tid, remaining_packets=remaining)\<close>, \<open>FrameDataSingle\<close> is
  \<open>run_command(SET_FRAME_DATA_SINGLE, 0, width, data, transaction_id=0x80)\<close> and
  \<open>CustomFrame\<close> is \<open>driver.custom_frame()\<close>.
\<close>

datatype transaction =
    FrameDataMatrix int nat nat nat "byte list" "nat option" int
  | FrameDataSingle nat nat "byte list" "nat option"
  | CustomFrame

text \<open>
  The driver (\<open>uchroma.device_base\<close>) is a collaborator outside the sources. Its
  state is the sequence of transactions issued so far; \<open>respond\<close> is the transport's
  behaviour: given the history and a transaction it answers \<open>None\<close> (the call returns;
  \<open>Frame\<close> ignores the returned value) or \<open>Some c\<close> (the call raises).
  The log holds every transaction handed to the transport, a rejected one included.
  \<open>quirk_custom_frame_80\<close> is \<open>has_quirk(Quirks.CUSTOM_FRAME_80)\<close>.
\<close>

record driver =
  sent :: "transaction list"
  respond :: "transaction list \<Rightarrow> transaction \<Rightarrow> int option"
  quirk_custom_frame_80 :: bool

definition run_command :: "driver \<Rightarrow> transaction \<Rightarrow> (error + unit) \<times> driver" where
  "run_command d t =
     (case respond d (sent d) t of
        None \<Rightarrow> (Inr (), d\<lparr>sent := sent d @ [t]\<rparr>)
      | Some c \<Rightarrow> (Inl (TransportError c), d\<lparr>sent := sent d @ [t]\<rparr>))"

definition accepting :: "driver \<Rightarrow> bool" where
  "accepting d = (\<forall>h t. respond d h t = None)"

section \<open>The framebuffer (frame.py)\<close>

text \<open>
  \<open>matrix\<close> is the numpy array of shape (height, width, 4): rows of cells, a cell the
  list of its four channels. \<open>writable\<close> is the array's write flag.
  \<open>px_bytes\<close> stands for what \<open>ColorUtils.rgba2rgb\<close> and \<open>tobytes\<close> make
  of one cell and the base colour (see \<open>rgba2rgb\<close> below).
\<close>

record frame =
  driver :: driver
  width :: nat
  height :: nat
  matrix :: "real list list list"
  writable :: bool
  base_color :: "real list"
  px_bytes :: "real list \<Rightarrow> real list \<Rightarrow> byte list"

definition MAX_WIDTH :: nat where
  "MAX_WIDTH = 24"

definition DEFAULT_FRAME_ID :: int where
  "DEFAULT_FRAME_ID = 0xFF"

definition zeros :: "nat \<Rightarrow> nat \<Rightarrow> real list list list" where
  "zeros h w = replicate h (replicate w (replicate 4 0))"

text \<open>The shape \<open>__init__\<close> gives the array; no method of \<open>Frame\<close> changes it.\<close>

definition shaped :: "frame \<Rightarrow> bool" where
  "shaped fr =
     (length (matrix fr) = height fr \<and>
      list_all (\<lambda>r. length r = width fr \<and> list_all (\<lambda>c. length c = 4) r) (matrix fr))"

text \<open>
  \<open>__init__\<close>: a zeroed, writable array of the given size; the base colour is black
  unless one is given.
\<close>

definition Frame_init ::
  "driver \<Rightarrow> nat \<Rightarrow> nat \<Rightarrow> real list option \<Rightarrow> (real list \<Rightarrow> real list \<Rightarrow> byte list) \<Rightarrow> frame"
where
  "Frame_init drv w h base px =
     \<lparr>driver = drv, width = w, height = h, matrix = zeros h w, writable = True,
      base_color = (case base of None \<Rightarrow> [0, 0, 0] | Some c \<Rightarrow> c), px_bytes = px\<rparr>"

definition setflags :: "frame \<Rightarrow> bool \<Rightarrow> frame" where
  "setflags fr w = fr\<lparr>writable := w\<rparr>"

text \<open>\<open>clear\<close>: \<open>self._matrix.fill(0)\<close>; numpy refuses to fill a read-only array.\<close>

definition clear :: "frame \<Rightarrow> (error + unit) \<times> frame" where
  "clear fr =
     (if writable fr
      then (Inr (), fr\<lparr>matrix := map (map (map (\<lambda>_. 0))) (matrix fr)\<rparr>)
      else (Inl ValueError, fr))"

text \<open>
  Modelled from the spec: \<open>ColorUtils.rgba2rgb\<close> (module \<open>uchroma.color\<close> is not
  among the sources). The spec's flatten step works cell by cell
  (\<open>opaque = pixel.rgb*pixel.a + base_color*(1-pixel.a)\<close>) and keeps the grid's
  shape; the bytes one flattened cell serialises to are the frame's \<open>px_bytes\<close>.
\<close>

definition rgba2rgb :: "frame \<Rightarrow> byte list list list" where
  "rgba2rgb fr = map (map (\<lambda>px. px_bytes fr px (base_color fr))) (matrix fr)"

definition as_img :: "frame \<Rightarrow> byte list list list" where
  "as_img fr = rgba2rgb fr"

text \<open>\<open>img[row][:width].tobytes()\<close>; indexing a row that is not there raises.\<close>

definition row_bytes :: "byte list list list \<Rightarrow> nat \<Rightarrow> nat \<Rightarrow> error + byte list" where
  "row_bytes img row w =
     (if row < length img then Inr (concat (take w (img ! row))) else Inl IndexError)"

definition drv_command :: "frame \<Rightarrow> transaction \<Rightarrow> (error + unit) \<times> frame" where
  "drv_command fr t = (case run_command (driver fr) t of (r, d) \<Rightarrow> (r, fr\<lparr>driver := d\<rparr>))"

definition commit :: "frame \<Rightarrow> (error + unit) \<times> frame" where
  "commit fr = drv_command fr CustomFrame"

definition set_frame_data_single :: "frame \<Rightarrow> int \<Rightarrow> (error + unit) \<times> frame" where
  "set_frame_data_single fr frame_id =
     (let w = min (width fr) MAX_WIDTH in
      case row_bytes (as_img fr) 0 w of
        Inl e \<Rightarrow> (Inl e, fr)
      | Inr data \<Rightarrow> drv_command fr (FrameDataSingle 0 w data (Some 0x80)))"

text \<open>The body of \<open>for row in range(0, self._height)\<close>, over the rows still to send.\<close>

fun send_rows ::
  "frame \<Rightarrow> int \<Rightarrow> nat \<Rightarrow> nat option \<Rightarrow> byte list list list \<Rightarrow> nat list \<Rightarrow> (error + unit) \<times> frame"
where
  "send_rows fr frame_id w tid img [] = (Inr (), fr)"
| "send_rows fr frame_id w tid img (row # rows) =
     (case row_bytes img row w of
        Inl e \<Rightarrow> (Inl e, fr)
      | Inr data \<Rightarrow>
          (let remaining = int (height fr) - int row - 1 in
           case drv_command fr (FrameDataMatrix frame_id row 0 w data tid remaining) of
             (Inl e, fr') \<Rightarrow> (Inl e, fr')
           | (Inr _, fr') \<Rightarrow> send_rows fr' frame_id w tid img rows))"

definition set_frame_data_matrix :: "frame \<Rightarrow> int \<Rightarrow> (error + unit) \<times> frame" where
  "set_frame_data_matrix fr frame_id =
     (let w = min (width fr) MAX_WIDTH;
          tid = (if quirk_custom_frame_80 (driver fr) then Some 0x80 else None);
          img = as_img fr
      in send_rows fr frame_id w tid img [0..<height fr])"

definition set_frame_data :: "frame \<Rightarrow> int option \<Rightarrow> (error + unit) \<times> frame" where
  "set_frame_data fr frame_id =
     (let fid = (case frame_id of None \<Rightarrow> DEFAULT_FRAME_ID | Some i \<Rightarrow> i) in
      if height fr = 1 then set_frame_data_single fr fid
      else set_frame_data_matrix fr fid)"

text \<open>
  \<open>prepare\<close>: the \<open>finally\<close> clause runs on both exits of the \<open>try\<close>; the
  \<open>clear()\<close> after it only when the \<open>try\<close> block did not raise.
\<close>

definition prepare :: "frame \<Rightarrow> int option \<Rightarrow> (error + unit) \<times> frame" where
  "prepare fr frame_id =
     (case set_frame_data (setflags fr False) frame_id of
        (Inl e, fr') \<Rightarrow> (Inl e, setflags fr' True)
      | (Inr _, fr') \<Rightarrow> clear (setflags fr' True))"

definition update :: "frame \<Rightarrow> int option \<Rightarrow> (error + unit) \<times> frame" where
  "update fr frame_id =
     (case set_frame_data (setflags fr False) frame_id of
        (Inl e, fr') \<Rightarrow> (Inl e, setflags fr' True)
      | (Inr _, fr') \<Rightarrow> (case commit fr' of (r, fr'') \<Rightarrow> (r, setflags fr'' True)))"

text \<open>\<open>prepare(frame_id)\<close> followed by \<open>commit()\<close>, as a caller writes the two calls.\<close>

definition prepare_then_commit :: "frame \<Rightarrow> int option \<Rightarrow> (error + unit) \<times> frame" where
  "prepare_then_commit fr frame_id =
     (case prepare fr frame_id of
        (Inl e, fr') \<Rightarrow> (Inl e, fr')
      | (Inr _, fr') \<Rightarrow> commit fr')"

definition flip :: "frame \<Rightarrow> bool \<Rightarrow> int option \<Rightarrow> (error + unit) \<times> frame" where
  "flip fr clr frame_id =
     (case update fr frame_id of
        (Inl e, fr') \<Rightarrow> (Inl e, fr')
      | (Inr _, fr') \<Rightarrow> (if clr then clear fr' else (Inr (), fr')))"

definition reset :: "frame \<Rightarrow> int option \<Rightarrow> (error + unit) \<times> frame" where
  "reset fr frame_id =
     (case clear fr of
        (Inl e, fr') \<Rightarrow> (Inl e, fr')
      | (Inr _, fr') \<Rightarrow> update fr' frame_id)"

definition ex_px :: "real list \<Rightarrow> real list \<Rightarrow> byte list" where
  "ex_px px base = (if px = [0, 0, 0, 0] then [0, 0, 0] else [255, 0, 0])"

definition ex_driver :: driver where
  "ex_driver = \<lparr>sent = [], respond = (\<lambda>h t. None), quirk_custom_frame_80 = False\<rparr>"

definition ex_frame :: "nat \<Rightarrow> nat \<Rightarrow> real list list list \<Rightarrow> frame" where
  "ex_frame h w m =
     \<lparr>driver = ex_driver, width = w, height = h, matrix = m, writable = True,
      base_color = [0, 0, 0], px_bytes = ex_px\<rparr>"

text \<open>
  What a run of transport calls leaves behind: only the driver's log has grown, and when
  the run raised, the exception is the one the transport raised for the last transaction
  issued.
\<close>

definition transport_outcome :: "frame \<Rightarrow> (error + unit) \<times> frame \<Rightarrow> bool" where
  "transport_outcome fr out =
     (case out of (r, fr') \<Rightarrow>
        (\<exists>ts. fr' = fr\<lparr>driver := (driver fr)\<lparr>sent := sent (driver fr) @ ts\<rparr>\<rparr> \<and>
          (case r of
             Inr _ \<Rightarrow> True
           | Inl e \<Rightarrow> ts \<noteq> [] \<and>
               (\<exists>c. e = TransportError c \<and>
                    respond (driver fr) (sent (driver fr) @ butlast ts) (last ts) = Some c))))"


text \<open>
  The transport's side of a call, for stating what reaches the caller. \<open>answers\<close>
  are the transport's answers to transactions issued one after another on top of a
  history; \<open>issued\<close> are the transactions a call added to the driver's log and
  \<open>transport_answers\<close> the answers they got. \<open>outcome_of\<close> is what a caller
  sees when the transport's last answer is passed on unchanged: the exception the
  transport raised, or a normal return.
\<close>

fun answers :: "driver \<Rightarrow> transaction list \<Rightarrow> transaction list \<Rightarrow> int option list" where
  "answers d h [] = []"
| "answers d h (t # ts) = respond d h t # answers d (h @ [t]) ts"







section \<open>Pixels and drawing primitives (frame.py)\<close>

text \<open>
  A grapefruit \<open>Color\<close>: red, green, blue, alpha. \<open>tuple(color)\<close> lists the four
  channels. A channel is a Python float; here it is the real number that float is.
\<close>

datatype Color = Color real real real real

definition tuple_of :: "Color \<Rightarrow> real list" where
  "tuple_of c = (case c of Color r g b a \<Rightarrow> [r, g, b, a])"




text \<open>
  The arrays that travel in a coordinate tuple: integer arrays (\<open>rr\<close>, \<open>cc\<close>) and
  float arrays (\<open>aa\<close>). The \<open>alpha\<close> argument of \<open>_set_color\<close> is a scalar
  (the default 1) or an array.
\<close>

datatype ndarray = IntArr "int list" | FloatArr "real list"

datatype alpha_arg = Scalar real | AlphaArr "real list"

text \<open>Boolean-mask indexing \<open>xs[mask]\<close>, for a mask as long as \<open>xs\<close>.\<close>

definition masked :: "bool list \<Rightarrow> 'a list \<Rightarrow> 'a list" where
  "masked bs xs = map snd (filter fst (zip bs xs))"

text \<open>
  \<open>_coords_inside_image\<close>. The comparisons broadcast \<open>rr\<close> against \<open>cc\<close>, and a
  boolean mask must be as long as the array it indexes; numpy raises otherwise.
\<close>

definition coords_inside_image ::
  "int list \<Rightarrow> int list \<Rightarrow> nat \<times> nat \<Rightarrow> real list option \<Rightarrow>
   error + (int list \<times> int list \<times> real list option)"
where
  "coords_inside_image rr cc shape val =
     (if length rr \<noteq> length cc
      then Inl (if length rr = 1 \<or> length cc = 1 then IndexError else ValueError)
      else
        (let inside = map (\<lambda>(r, c). 0 \<le> r \<and> r < int (fst shape) \<and> 0 \<le> c \<and> c < int (snd shape))
                        (zip rr cc)
         in case val of
              None \<Rightarrow> Inr (masked inside rr, masked inside cc, None)
            | Some v \<Rightarrow>
                (if length v \<noteq> length rr then Inl IndexError
                 else Inr (masked inside rr, masked inside cc, Some (masked inside v)))))"

text \<open>Python's \<open>round\<close>: to the nearest integer, a tie to the even one.\<close>

definition py_round :: "real \<Rightarrow> int" where
  "py_round x =
     (let f = \<lfloor>x\<rfloor>; d = x - of_int f
      in if d < 1 / 2 then f else if 1 / 2 < d then f + 1 else if even f then f else f + 1)"

text \<open>
  The matrix is a numpy array of dtype float32 (\<open>np.zeros(..., dtype=np.float32)\<close>
  in \<open>__init__\<close>): a value assigned to a cell is cast to float32. The cast rounds
  to the nearest number with a 24-bit significand, a tie to the one whose last bit is
  even; below \<open>2^-126\<close> the spacing stays \<open>2^-149\<close>. \<open>doublings\<close> and
  \<open>halvings\<close> find the binary exponent of a magnitude below 1 and of one from 1
  on. A magnitude of \<open>2^128 - 2^103\<close> or more overflows to infinity in numpy,
  which the reals do not have: \<open>float32\<close> describes the cast for the magnitudes
  below that (\<open>float32_finite\<close>).
\<close>

fun doublings :: "nat \<Rightarrow> real \<Rightarrow> nat" where
  "doublings 0 a = 0"
| "doublings (Suc n) a = (if a < 1 then Suc (doublings n (2 * a)) else 0)"

fun halvings :: "nat \<Rightarrow> real \<Rightarrow> nat" where
  "halvings 0 a = 0"
| "halvings (Suc n) a = (if 2 \<le> a then Suc (halvings n (a / 2)) else 0)"

definition pow2 :: "int \<Rightarrow> real" where
  "pow2 k = (if 0 \<le> k then 2 ^ nat k else 1 / 2 ^ nat (- k))"

definition float32 :: "real \<Rightarrow> real" where
  "float32 x =
     (if x = 0 then 0
      else
        (let a = \<bar>x\<bar>;
             e = (if a < 1 then - int (doublings 126 a) else int (halvings 127 a));
             q = pow2 (e - 23)
         in of_int (py_round (x / q)) * q))"



text \<open>
  \<open>vals + color\<close> for one point: \<open>img[r, c] * (1 - alpha) + color * alpha\<close>,
  channel by channel. numpy computes the two products and the sum in double precision;
  here they are exact, which is what numpy gives when alpha is 0 or 1.
\<close>

definition blend :: "real list \<Rightarrow> real list \<Rightarrow> real \<Rightarrow> real list" where
  "blend old color a = map (\<lambda>(v, c). v * (1 - a) + c * a) (zip old color)"

text \<open>
  \<open>img[rr, cc] = values\<close>: the values were computed from the array as it was before
  the assignment and are cast to the array's float32; the points are then stored in
  order, so the last of two equal coordinates stays.
\<close>

fun assign_cells ::
  "real list list list \<Rightarrow> (nat \<times> nat \<times> real list) list \<Rightarrow> real list list list"
where
  "assign_cells m [] = m"
| "assign_cells m ((r, c, v) # ws) = assign_cells (m[r := (m ! r)[c := v]]) ws"

text \<open>
  \<open>_set_color(img, coords, color, alpha=1)\<close> on the frame's matrix (three
  dimensions, last dimension 4). \<open>rr, cc = coords\<close> raises ValueError unless the
  tuple has exactly two members.
\<close>

definition set_color ::
  "frame \<Rightarrow> ndarray list \<Rightarrow> real list \<Rightarrow> alpha_arg \<Rightarrow> (error + unit) \<times> frame"
where
  "set_color fr coords color alpha =
     (case coords of
        [rr0, cc0] \<Rightarrow>
          (if length color \<noteq> 4 then (Inl ValueError, fr)
           else
             (case (rr0, cc0) of
                (IntArr rr, IntArr cc) \<Rightarrow>
                  (let al = (case alpha of Scalar a \<Rightarrow> map (\<lambda>_. 1 * a) rr | AlphaArr v \<Rightarrow> v) in
                   case coords_inside_image rr cc (height fr, width fr) (Some al) of
                     Inl e \<Rightarrow> (Inl e, fr)
                   | Inr (rr', cc', None) \<Rightarrow> (Inl ValueError, fr)
                   | Inr (rr', cc', Some al') \<Rightarrow>
                       (let writes =
                              map (\<lambda>(r, c, a). (nat r, nat c, map float32 (blend (matrix fr ! nat r ! nat c) color a)))
                                  (zip rr' (zip cc' al'))
                        in if writable fr
                           then (Inr (), fr\<lparr>matrix := assign_cells (matrix fr) writes\<rparr>)
                           else (Inl ValueError, fr)))
              | _ \<Rightarrow> (Inl IndexError, fr)))
      | _ \<Rightarrow> (Inl ValueError, fr))"


text \<open>
  The rasterisers of \<open>skimage.draw\<close> and \<open>uchroma.util.clamp\<close> are outside the
  sources: they are parameters. A rasteriser returns its points with the row and the
  column (and the coverage) of each, so the arrays it yields are equally long.
\<close>

record externals =
  draw_circle :: "int \<Rightarrow> int \<Rightarrow> int \<Rightarrow> nat \<times> nat \<Rightarrow> (int \<times> int) list"
  draw_circle_perimeter_aa :: "int \<Rightarrow> int \<Rightarrow> int \<Rightarrow> nat \<times> nat \<Rightarrow> (int \<times> int \<times> real) list"
  draw_line_aa :: "int \<Rightarrow> int \<Rightarrow> int \<Rightarrow> int \<Rightarrow> (int \<times> int \<times> real) list"
  clamp :: "int \<Rightarrow> int \<Rightarrow> int \<Rightarrow> int"

definition circle ::
  "externals \<Rightarrow> frame \<Rightarrow> int \<Rightarrow> int \<Rightarrow> real \<Rightarrow> Color \<Rightarrow> bool \<Rightarrow> (error + unit) \<times> frame"
where
  "circle ext fr row col radius color fill =
     (if fill
      then (let pts = draw_circle ext row col (py_round radius) (height fr, width fr)
            in set_color fr [IntArr (map fst pts), IntArr (map snd pts)] (tuple_of color) (Scalar 1))
      else (let pts = draw_circle_perimeter_aa ext row col (py_round radius) (height fr, width fr)
            in set_color fr [IntArr (map fst pts), IntArr (map (\<lambda>p. fst (snd p)) pts)]
                 (tuple_of color) (AlphaArr (map (\<lambda>p. snd (snd p)) pts))))"

text \<open>\<open>line\<close> hands \<open>_set_color\<close> the tuple \<open>(rr, cc, aa)\<close>: three members.\<close>

definition line ::
  "externals \<Rightarrow> frame \<Rightarrow> int \<Rightarrow> int \<Rightarrow> int \<Rightarrow> int \<Rightarrow> Color \<Rightarrow> (error + unit) \<times> frame"
where
  "line ext fr row1 col1 row2 col2 color =
     (let pts = draw_line_aa ext
                  (clamp ext 0 (int (height fr)) row1) (clamp ext 0 (int (width fr)) col1)
                  (clamp ext 0 (int (height fr)) row2) (clamp ext 0 (int (width fr)) col2);
          rr = IntArr (map fst pts);
          cc = IntArr (map (\<lambda>p. fst (snd p)) pts);
          aa = map (\<lambda>p. snd (snd p)) pts
      in set_color fr [rr, cc, FloatArr aa] (tuple_of color) (AlphaArr aa))"

text \<open>A point of the grid: \<open>[0,H) x [0,W)\<close>.\<close>

definition in_grid :: "frame \<Rightarrow> int \<times> int \<Rightarrow> bool" where
  "in_grid fr p = (0 \<le> fst p \<and> fst p < int (height fr) \<and> 0 \<le> snd p \<and> snd p < int (width fr))"

text \<open>Example collaborators for the concrete checks.\<close>

definition ex_externals :: externals where
  "ex_externals =
     \<lparr>draw_circle = (\<lambda>r c rad shape. [(r, c), (r - rad, c), (r + rad, c), (r, c - rad), (r, c + rad)]),
      draw_circle_perimeter_aa =
        (\<lambda>r c rad shape. [(r - rad, c, 1 / 2), (r + rad, c, 1 / 2), (r, c - rad, 1), (r, c + rad, 1)]),
      draw_line_aa = (\<lambda>r1 c1 r2 c2. [(r1, c1, 1), (r2, c2, 1)]),
      clamp = (\<lambda>lo hi v. max lo (min hi v))\<rparr>"


section \<open>Layers and renderers (anim.py)\<close>

definition NUM_BUFFERS :: nat where
  "NUM_BUFFERS = 2"

text \<open>
  Modelled from the spec: \<open>Layer\<close> (module \<open>uchroma.layer\<close> is not among the
  sources) is a framebuffer-like grid with a blend-mode tag and a binary lock flag;
  \<open>lock(b)\<close> sets the flag and \<open>clear()\<close> zeroes every cell.
\<close>

record layer =
  cells :: "real list list list"
  blend_mode :: "string option"
  locked :: bool

definition lock :: "layer \<Rightarrow> bool \<Rightarrow> layer" where
  "lock l b = l\<lparr>locked := b\<rparr>"

definition clear_layer :: "layer \<Rightarrow> layer" where
  "clear_layer l = l\<lparr>cells := map (map (map (\<lambda>_. 0))) (cells l)\<rparr>"

text \<open>
  Class \<open>Frame\<close> (frame.py) defines no method \<open>create_layer\<close>: the lookup
  \<open>self._frame.create_layer\<close> in \<open>_create_buffers\<close> raises AttributeError, and no
  Layer is made.
\<close>

definition create_layer :: "frame \<Rightarrow> error + layer" where
  "create_layer fr = Inl AttributeError"

text \<open>
  A renderer implementation (a class of \<open>uchroma.fxlib\<close>, outside the sources), by
  what the manager sees of it: what its constructor does with the given traits
  (\<open>None\<close>: it builds the object; \<open>Some e\<close>: it raises \<open>e\<close>), what \<open>init\<close>
  returns, and whether its objects have the attribute \<open>name\<close> that the manager's
  error message reads.
\<close>

type_synonym traits = "(string \<times> string) list"

record renderer_class =
  construct :: "traits \<Rightarrow> error option"
  init_result :: "traits \<Rightarrow> bool"
  has_name :: bool

text \<open>
  A \<open>Renderer\<close> object: its class and traits, the z-order fixed at creation, the
  running flag and the two queues (\<open>asyncio.Queue(maxsize=NUM_BUFFERS)\<close>, oldest
  entry first).
\<close>

record renderer =
  clazz :: renderer_class
  config :: traits
  zorder :: int
  rnd_running :: bool
  avail_q :: "layer list"
  active_q :: "layer list"

definition Renderer_init :: "renderer_class \<Rightarrow> int \<Rightarrow> traits \<Rightarrow> renderer" where
  "Renderer_init c z t =
     \<lparr>clazz = c, config = t, zorder = z, rnd_running = False, avail_q = [], active_q = []\<rparr>"

text \<open>\<open>_free_layer\<close>; \<open>put_nowait\<close> raises QueueFull on a full queue.\<close>

definition free_layer :: "renderer \<Rightarrow> layer \<Rightarrow> error + renderer" where
  "free_layer r l =
     (let l' = clear_layer (lock l False) in
      if NUM_BUFFERS \<le> length (avail_q r) then Inl QueueFull
      else Inr (r\<lparr>avail_q := avail_q r @ [l']\<rparr>))"

definition flush :: "renderer \<Rightarrow> renderer" where
  "flush r = (if rnd_running r then r else r\<lparr>avail_q := [], active_q := []\<rparr>)"

definition stop_renderer :: "renderer \<Rightarrow> renderer" where
  "stop_renderer r = (if \<not> rnd_running r then r else flush (r\<lparr>rnd_running := False\<rparr>))"

section \<open>The renderer's run loop and the compositor's dequeue, one renderer at a time\<close>

text \<open>
  The coroutines of one renderer and of the loop interleave at their suspension points.
  The state of the interleaving: the renderer, the Layer its \<open>_run\<close> holds between
  \<open>_avail_q.get()\<close> and the end of the iteration (\<open>in_draw\<close>), and the loop's
  \<open>_active_bufs[r_idx]\<close> (\<open>last_known\<close>).
\<close>

record circulation =
  rnd :: renderer
  in_draw :: "layer option"
  last_known :: "layer option"

datatype draw_result = Drawn bool | DrawRaised

datatype event = Acquire | Finish draw_result | Dequeue

text \<open>
  \<open>layer = yield from self._avail_q.get()\<close> at the top of an iteration of
  \<open>while self._running\<close>: \<open>None\<close> while the queue is empty (the coroutine stays
  suspended).
\<close>

definition run_acquire :: "circulation \<Rightarrow> circulation option" where
  "run_acquire s =
     (if \<not> rnd_running (rnd s) \<or> in_draw s \<noteq> None then None
      else case avail_q (rnd s) of
             [] \<Rightarrow> None
           | l # q \<Rightarrow> Some (s\<lparr>rnd := (rnd s)\<lparr>avail_q := q\<rparr>, in_draw := Some l\<rparr>))"

text \<open>
  The rest of the iteration, once \<open>draw\<close> is over: an exception breaks out of the loop
  and \<open>_stop()\<close> runs; so does a cleared running flag; a true status locks the Layer
  and puts it on \<open>_active_q\<close> (suspended while that queue is full); a false status
  does nothing with the Layer and the iteration ends.
\<close>

definition run_finish :: "circulation \<Rightarrow> draw_result \<Rightarrow> circulation option" where
  "run_finish s res =
     (case in_draw s of
        None \<Rightarrow> None
      | Some l \<Rightarrow>
          (case res of
             DrawRaised \<Rightarrow> Some (s\<lparr>rnd := stop_renderer (rnd s), in_draw := None\<rparr>)
           | Drawn status \<Rightarrow>
               if \<not> rnd_running (rnd s)
               then Some (s\<lparr>rnd := stop_renderer (rnd s), in_draw := None\<rparr>)
               else if status
               then (if length (active_q (rnd s)) < NUM_BUFFERS
                     then Some (s\<lparr>rnd := (rnd s)\<lparr>active_q := active_q (rnd s) @ [lock l True]\<rparr>,
                                   in_draw := None\<rparr>)
                     else None)
               else Some (s\<lparr>in_draw := None\<rparr>)))"

text \<open>
  \<open>_dequeue\<close> and \<open>_dequeue_nowait\<close> once a buffer is ready: take it from
  \<open>_active_q\<close>, return the previous one through \<open>_free_layer\<close>, record the new
  one. \<open>None\<close> when no buffer is ready or \<open>_free_layer\<close> raises. (Both
  return at once when the loop is not running; the steps here are those of a running
  loop.)
\<close>

definition dequeue :: "circulation \<Rightarrow> circulation option" where
  "dequeue s =
     (case active_q (rnd s) of
        [] \<Rightarrow> None
      | buf # q \<Rightarrow>
          (let r = (rnd s)\<lparr>active_q := q\<rparr> in
           case last_known s of
             None \<Rightarrow> Some (s\<lparr>rnd := r, last_known := Some buf\<rparr>)
           | Some old \<Rightarrow>
               (case free_layer r old of
                  Inl e \<Rightarrow> None
                | Inr r' \<Rightarrow> Some (s\<lparr>rnd := r', last_known := Some buf\<rparr>))))"

fun step :: "circulation \<Rightarrow> event \<Rightarrow> circulation option" where
  "step s Acquire = run_acquire s"
| "step s (Finish res) = run_finish s res"
| "step s Dequeue = dequeue s"

fun run :: "circulation \<Rightarrow> event list \<Rightarrow> circulation option" where
  "run s [] = Some s"
| "run s (e # es) = (case step s e of None \<Rightarrow> None | Some s' \<Rightarrow> run s' es)"

text \<open>The Layers of a renderer that are still somewhere.\<close>

definition circulating :: "circulation \<Rightarrow> nat" where
  "circulating s =
     length (avail_q (rnd s)) + length (active_q (rnd s)) +
     (case in_draw s of None \<Rightarrow> 0 | Some _ \<Rightarrow> 1) +
     (case last_known s of None \<Rightarrow> 0 | Some _ \<Rightarrow> 1)"

text \<open>The iterations of a trace in which \<open>draw\<close> returned False.\<close>

definition dropped :: "event list \<Rightarrow> nat" where
  "dropped es = length (filter (\<lambda>e. e = Finish (Drawn False)) es)"

section \<open>The animation loop (anim.py)\<close>

text \<open>
  \<open>loop_frame\<close> and \<open>loop_renderers\<close> are the objects the manager also holds
  (\<open>driver.frame_control\<close>, the members of \<open>renderers\<close>); \<open>anim_task\<close> says
  whether \<open>_animate\<close> has been scheduled.
\<close>

record animation_loop =
  loop_frame :: frame
  loop_renderers :: "renderer list"
  default_blend_mode :: "string option"
  loop_running :: bool
  loop_error :: bool
  anim_task :: bool
  waiters :: "bool option list"
  active_bufs :: "layer option list"

definition AnimationLoop_init :: "frame \<Rightarrow> renderer list \<Rightarrow> string option \<Rightarrow> animation_loop" where
  "AnimationLoop_init fr rs bm =
     \<lparr>loop_frame = fr, loop_renderers = rs, default_blend_mode = bm, loop_running = False,
      loop_error = False, anim_task = False, waiters = [], active_bufs = []\<rparr>"

text \<open>
  The inner loop of \<open>_create_buffers\<close>, \<open>for buf in range(0, NUM_BUFFERS)\<close>, with
  the number of passes still to make: create a Layer, tag it with the default blend mode,
  hand it to the renderer through \<open>_free_layer\<close>.
\<close>

fun fill_pool :: "frame \<Rightarrow> string option \<Rightarrow> renderer \<Rightarrow> nat \<Rightarrow> (error + unit) \<times> renderer" where
  "fill_pool fr bm r 0 = (Inr (), r)"
| "fill_pool fr bm r (Suc n) =
     (case create_layer fr of
        Inl e \<Rightarrow> (Inl e, r)
      | Inr l \<Rightarrow>
          (case free_layer r (l\<lparr>blend_mode := bm\<rparr>) of
             Inl e \<Rightarrow> (Inl e, r)
           | Inr r' \<Rightarrow> fill_pool fr bm r' n))"

text \<open>
  The outer loop, \<open>for r_idx in range(0, len(self._renderers))\<close>: flush the renderer,
  then fill its pool. An exception leaves the renderers after it untouched.
\<close>

fun load_renderers ::
  "frame \<Rightarrow> string option \<Rightarrow> renderer list \<Rightarrow> (error + unit) \<times> renderer list"
where
  "load_renderers fr bm [] = (Inr (), [])"
| "load_renderers fr bm (r # rs) =
     (case fill_pool fr bm (flush r) NUM_BUFFERS of
        (Inl e, r') \<Rightarrow> (Inl e, r' # rs)
      | (Inr _, r') \<Rightarrow> (case load_renderers fr bm rs of (res, rs') \<Rightarrow> (res, r' # rs')))"

definition create_buffers :: "animation_loop \<Rightarrow> (error + unit) \<times> animation_loop" where
  "create_buffers l =
     (let n = length (loop_renderers l);
          l1 = l\<lparr>waiters := replicate n None, active_bufs := replicate n None\<rparr>
      in case load_renderers (loop_frame l1) (default_blend_mode l1) (loop_renderers l1) of
           (res, rs) \<Rightarrow> (res, l1\<lparr>loop_renderers := rs\<rparr>))"

definition loop_start :: "animation_loop \<Rightarrow> (error + bool) \<times> animation_loop" where
  "loop_start l =
     (if loop_running l then (Inr False, l)
      else if length (loop_renderers l) = 0 then (Inr False, l)
      else
        (case reset (loop_frame l) None of
           (Inl e, fr) \<Rightarrow> (Inl e, l\<lparr>loop_frame := fr\<rparr>)
         | (Inr _, fr) \<Rightarrow>
             (case create_buffers (l\<lparr>loop_frame := fr, loop_running := True\<rparr>) of
                (Inl e, l') \<Rightarrow> (Inl e, l')
              | (Inr _, l') \<Rightarrow> (Inr True, l'\<lparr>anim_task := True\<rparr>))))"

text \<open>
  \<open>Frame.commit\<close> is declared \<open>def commit(self)\<close>: called with a positional
  argument it raises TypeError before its body runs.
\<close>

definition call_commit :: "frame \<Rightarrow> 'a list \<Rightarrow> (error + unit) \<times> frame" where
  "call_commit fr args = (if args \<noteq> [] then (Inl TypeError, fr) else commit fr)"

text \<open>\<open>_commit_layers\<close>: \<open>self._frame.commit(self._active_bufs)\<close>.\<close>

definition commit_layers :: "animation_loop \<Rightarrow> (error + unit) \<times> animation_loop" where
  "commit_layers l =
     (case call_commit (loop_frame l) [active_bufs l] of (r, fr) \<Rightarrow> (r, l\<lparr>loop_frame := fr\<rparr>))"

text \<open>
  One pass of the body of \<open>while self._running\<close> in \<open>_animate\<close>, from the return of
  \<open>_get_layers\<close> (the ready layers are in \<open>active_bufs\<close>): \<open>Inr False\<close> is the
  \<open>break\<close>, \<open>Inr True\<close> the pass that went on to \<open>tick.tick()\<close>.
\<close>

definition animate_after_get_layers :: "animation_loop \<Rightarrow> (error + bool) \<times> animation_loop" where
  "animate_after_get_layers l =
     (if \<not> loop_running l then (Inr False, l)
      else if loop_error l then (Inr False, l)
      else case commit_layers l of
             (Inl e, l') \<Rightarrow> (Inl e, l')
           | (Inr _, l') \<Rightarrow> (Inr True, l'))"

section \<open>The renderer manager (anim.py)\<close>

text \<open>
  \<open>renderer_info\<close> is the dictionary of discovered renderer classes;
  \<open>frame_control\<close> is \<open>self._driver.frame_control\<close>; \<open>running\<close> the trait.
\<close>

record manager =
  renderers :: "renderer list"
  renderer_info :: "string \<Rightarrow> renderer_class option"
  running :: bool
  frame_control :: frame
  anim_loop :: "animation_loop option"

text \<open>
  \<open>_get_renderer\<close>: \<open>Inr None\<close> is the returned \<open>None\<close>; only ImportError is
  caught, any other exception of the constructor reaches the caller.
\<close>

definition get_renderer :: "manager \<Rightarrow> string \<Rightarrow> traits \<Rightarrow> error + renderer option" where
  "get_renderer m name t =
     (case renderer_info m name of
        None \<Rightarrow> Inr None
      | Some info \<Rightarrow>
          (let z = int (length (renderers m)) in
           case construct info t of
             None \<Rightarrow> Inr (Some (Renderer_init info z t))
           | Some ImportError \<Rightarrow> Inr None
           | Some e \<Rightarrow> Inl e))"

text \<open>
  \<open>add_renderer\<close>. The error message of the failed \<open>init\<close> reads
  \<open>renderer.name\<close> before \<open>-1\<close> is returned.
\<close>

definition add_renderer :: "manager \<Rightarrow> string \<Rightarrow> traits \<Rightarrow> (error + int) \<times> manager" where
  "add_renderer m name t =
     (case get_renderer m name t of
        Inl e \<Rightarrow> (Inl e, m)
      | Inr None \<Rightarrow> (Inr (- 1), m)
      | Inr (Some r) \<Rightarrow>
          (if \<not> init_result (clazz r) t
           then (if has_name (clazz r) then (Inr (- 1), m) else (Inl AttributeError, m))
           else (Inr (zorder r), m\<lparr>renderers := renderers m @ [r]\<rparr>)))"

text \<open>
  \<open>start\<close>. The loop works on the manager's own frame and renderer objects, so what
  \<open>loop.start()\<close> did to them shows in the manager's fields as well.
\<close>

definition start :: "manager \<Rightarrow> string option \<Rightarrow> (error + bool) \<times> manager" where
  "start m bm =
     (if running m then (Inr False, m)
      else if length (renderers m) = 0 then (Inr False, m)
      else
        (case loop_start (AnimationLoop_init (frame_control m) (renderers m) bm) of
           (res, l) \<Rightarrow>
             (let m' = m\<lparr>anim_loop := Some l, renderers := loop_renderers l,
                          frame_control := loop_frame l\<rparr>
              in case res of
                   Inr True \<Rightarrow> (Inr True, m'\<lparr>running := True\<rparr>)
                 | _ \<Rightarrow> (res, m'))))"

definition clear_renderers :: "manager \<Rightarrow> bool \<times> manager" where
  "clear_renderers m = (if running m then (False, m) else (True, m\<lparr>renderers := []\<rparr>))"

text \<open>Example classes, renderers and managers for the concrete checks.\<close>

definition ex_class :: renderer_class where
  "ex_class = \<lparr>construct = (\<lambda>t. None), init_result = (\<lambda>t. True), has_name = False\<rparr>"

definition ex_info :: "string \<Rightarrow> renderer_class option" where
  "ex_info name = (if name = ''uchroma.fxlib.Plasma'' then Some ex_class else None)"

definition ex_manager :: "bool \<Rightarrow> renderer list \<Rightarrow> manager" where
  "ex_manager is_running rs =
     \<lparr>renderers = rs, renderer_info = ex_info, running = is_running,
      frame_control = ex_frame 1 1 [[[1, 0, 0, 1]]], anim_loop = None\<rparr>"

definition ex_layer :: layer where
  "ex_layer = \<lparr>cells = [[[0, 0, 0, 0]]], blend_mode = None, locked = False\<rparr>"

definition ex_circulation :: circulation where
  "ex_circulation =
     \<lparr>rnd = (Renderer_init ex_class 0 [])\<lparr>rnd_running := True, avail_q := [ex_layer, ex_layer]\<rparr>,
      in_draw = None, last_known = None\<rparr>"

text \<open>A loop in the middle of a run: one renderer, its last layer in \<open>active_bufs\<close>.\<close>

definition ex_loop :: animation_loop where
  "ex_loop =
     (AnimationLoop_init (ex_frame 1 1 [[[1, 0, 0, 1]]]) [Renderer_init ex_class 0 []] None)
       \<lparr>loop_running := True, anim_task := True, waiters := [Some True],
        active_bufs := [Some ex_layer]\<rparr>"

section \<open>Serialisation: helper lemmas\<close>

lemma shaped_Frame_init: "shaped (Frame_init drv w h base px)"
  by (simp add: shaped_def Frame_init_def zeros_def list_all_length)

lemma drv_command_accepting:
  "accepting (driver fr) \<Longrightarrow>
   drv_command fr t = (Inr (), fr\<lparr>driver := (driver fr)\<lparr>sent := sent (driver fr) @ [t]\<rparr>\<rparr>)"
  by (simp add: drv_command_def run_command_def accepting_def)

lemma accepting_sent_update [simp]:
  "accepting (d\<lparr>sent := s\<rparr>) = accepting d"
  by (simp add: accepting_def)

lemma send_rows_accepting:
  "accepting (driver fr) \<Longrightarrow> list_all (\<lambda>r. r < length img) rows \<Longrightarrow>
   send_rows fr fid w tid img rows =
     (Inr (), fr\<lparr>driver := (driver fr)\<lparr>sent := sent (driver fr) @
        map (\<lambda>row. FrameDataMatrix fid row 0 w (concat (take w (img ! row))) tid
                     (int (height fr) - int row - 1)) rows\<rparr>\<rparr>)"
proof (induction rows arbitrary: fr)
  case Nil
  then show ?case by simp
next
  case (Cons row rows)
  let ?t = "FrameDataMatrix fid row 0 w (concat (take w (img ! row))) tid (int (height fr) - int row - 1)"
  let ?fr' = "fr\<lparr>driver := (driver fr)\<lparr>sent := sent (driver fr) @ [?t]\<rparr>\<rparr>"
  have acc': "accepting (driver ?fr')" using Cons.prems(1) by simp
  have rows': "list_all (\<lambda>r. r < length img) rows" using Cons.prems(2) by simp
  have row: "row < length img" using Cons.prems(2) by simp
  have step: "drv_command fr ?t = (Inr (), ?fr')"
    by (rule drv_command_accepting [OF Cons.prems(1)])
  show ?case
    using Cons.IH [OF acc' rows'] row step
    by (simp add: row_bytes_def)
qed

lemma length_as_img: "length (as_img fr) = length (matrix fr)"
  by (simp add: as_img_def rgba2rgb_def)

lemma as_img_row:
  "row < length (matrix fr) \<Longrightarrow>
   as_img fr ! row = map (\<lambda>px. px_bytes fr px (base_color fr)) (matrix fr ! row)"
  by (simp add: as_img_def rgba2rgb_def)

lemma rows_in_img:
  "shaped fr \<Longrightarrow> list_all (\<lambda>r. r < length (as_img fr)) [0..<height fr]"
  by (simp add: shaped_def length_as_img list_all_iff)

section \<open>Matrix mode\<close>

text \<open>
  Claim C1. A framebuffer of height \<open>H > 1\<close> is serialised by \<open>_set_frame_data\<close>
  in matrix mode: on a transport that accepts every write, the call returns and the
  driver's log grows by exactly one \<open>SET_FRAME_DATA_MATRIX\<close> transaction per row, for
  rows \<open>0, 1, ..., H - 1\<close> in that order; each carries the frame id (255 by default),
  its row, starting column 0, column count \<open>min W 24\<close>, the bytes of the first
  \<open>min W 24\<close> cells of that row, and \<open>remaining_packets = H - row - 1\<close>, which
  falls by one per row and is 0 on the last.
\<close>

theorem matrix_mode_transactions:
  assumes "1 < height fr" and "shaped fr" and "accepting (driver fr)"
  shows "fst (set_frame_data fr frame_id) = Inr () \<and>
         sent (driver (snd (set_frame_data fr frame_id))) =
           sent (driver fr) @
           map (\<lambda>row. FrameDataMatrix (case frame_id of None \<Rightarrow> 0xFF | Some i \<Rightarrow> i)
                   row 0 (min (width fr) 24)
                   (concat (take (min (width fr) 24)
                      (map (\<lambda>px. px_bytes fr px (base_color fr)) (matrix fr ! row))))
                   (if quirk_custom_frame_80 (driver fr) then Some 0x80 else None)
                   (int (height fr) - int row - 1))
               [0..<height fr]"
proof -
  have rows: "\<And>row. row < height fr \<Longrightarrow> row < length (matrix fr)"
    using assms(2) by (simp add: shaped_def)
  show ?thesis
    using assms(1) send_rows_accepting [OF assms(3) rows_in_img [OF assms(2)]] rows
    by (simp add: set_frame_data_def set_frame_data_matrix_def MAX_WIDTH_def DEFAULT_FRAME_ID_def
        Let_def as_img_row split: option.split cong: map_cong)
qed

text \<open>The theorem at a 2-row, 1-column framebuffer: two transactions, remaining 1 then 0.\<close>

theorem matrix_mode_transactions_witness:
  "1 < height (ex_frame 2 1 [[[1, 0, 0, 1]], [[0, 0, 0, 0]]]) \<and>
   shaped (ex_frame 2 1 [[[1, 0, 0, 1]], [[0, 0, 0, 0]]]) \<and>
   accepting (driver (ex_frame 2 1 [[[1, 0, 0, 1]], [[0, 0, 0, 0]]])) \<and>
   sent (driver (snd (set_frame_data (ex_frame 2 1 [[[1, 0, 0, 1]], [[0, 0, 0, 0]]]) None))) =
     [FrameDataMatrix 255 0 0 1 [255, 0, 0] None 1,
      FrameDataMatrix 255 1 0 1 [0, 0, 0] None 0]"
proof -
  let ?F = "ex_frame 2 1 [[[1, 0, 0, 1]], [[0, 0, 0, 0]]]"
  have h: "1 < height ?F" by (simp add: ex_frame_def)
  have s: "shaped ?F" by (simp add: ex_frame_def shaped_def)
  have a: "accepting (driver ?F)" by (simp add: ex_frame_def ex_driver_def accepting_def)
  have u: "[0..<2] = [0, Suc 0]" by (simp add: upt_rec)
  show ?thesis
    using h s a matrix_mode_transactions [OF h s a, of None]
    by (simp add: ex_frame_def ex_driver_def ex_px_def u)
qed

section \<open>What a run of transport calls leaves behind\<close>

lemma drv_command_result:
  "drv_command fr t = (r, fr') \<Longrightarrow>
   fr' = fr\<lparr>driver := (driver fr)\<lparr>sent := sent (driver fr) @ [t]\<rparr>\<rparr> \<and>
   (case r of
      Inr _ \<Rightarrow> respond (driver fr) (sent (driver fr)) t = None
    | Inl e \<Rightarrow> (\<exists>c. e = TransportError c \<and> respond (driver fr) (sent (driver fr)) t = Some c))"
  by (auto simp: drv_command_def run_command_def split: option.splits)

lemma transport_outcome_drv:
  "transport_outcome fr (drv_command fr t)"
proof -
  obtain r fr' where eq: "drv_command fr t = (r, fr')" by (cases "drv_command fr t")
  from drv_command_result [OF eq] show ?thesis
    unfolding transport_outcome_def eq
    by (cases r) (auto intro!: exI [of _ "[t]"])
qed

lemma transport_outcome_step:
  assumes "drv_command fr t = (Inr u, fr1)" and "transport_outcome fr1 out"
  shows "transport_outcome fr out"
proof -
  obtain r fr' where out: "out = (r, fr')" by (cases out)
  from drv_command_result [OF assms(1)]
  have fr1: "fr1 = fr\<lparr>driver := (driver fr)\<lparr>sent := sent (driver fr) @ [t]\<rparr>\<rparr>" by simp
  from assms(2) obtain ts where
    fr': "fr' = fr1\<lparr>driver := (driver fr1)\<lparr>sent := sent (driver fr1) @ ts\<rparr>\<rparr>" and
    r: "case r of Inr _ \<Rightarrow> True
        | Inl e \<Rightarrow> ts \<noteq> [] \<and>
            (\<exists>c. e = TransportError c \<and>
                 respond (driver fr1) (sent (driver fr1) @ butlast ts) (last ts) = Some c)"
    unfolding transport_outcome_def out by auto
  have "fr' = fr\<lparr>driver := (driver fr)\<lparr>sent := sent (driver fr) @ (t # ts)\<rparr>\<rparr>"
    using fr' fr1 by simp
  moreover have "case r of Inr _ \<Rightarrow> True
        | Inl e \<Rightarrow> t # ts \<noteq> [] \<and>
            (\<exists>c. e = TransportError c \<and>
                 respond (driver fr) (sent (driver fr) @ butlast (t # ts)) (last (t # ts)) = Some c)"
    using r fr1 by (cases r) auto
  ultimately show ?thesis
    unfolding transport_outcome_def out by blast
qed

lemma transport_outcome_refl: "transport_outcome fr (Inr (), fr)"
  unfolding transport_outcome_def by (auto intro!: exI [of _ "[]"])

lemma transport_outcome_send_rows:
  "list_all (\<lambda>r. r < length img) rows \<Longrightarrow>
   transport_outcome fr (send_rows fr fid w tid img rows)"
proof (induction rows arbitrary: fr)
  case Nil
  show ?case by (simp add: transport_outcome_refl)
next
  case (Cons row rows)
  let ?t = "FrameDataMatrix fid row 0 w (concat (take w (img ! row))) tid (int (height fr) - int row - 1)"
  have row: "row_bytes img row w = Inr (concat (take w (img ! row)))"
    using Cons.prems by (simp add: row_bytes_def)
  have rows: "list_all (\<lambda>r. r < length img) rows" using Cons.prems by simp
  obtain r fr1 where eq: "drv_command fr ?t = (r, fr1)" by (cases "drv_command fr ?t")
  show ?case
  proof (cases r)
    case (Inl e)
    have "send_rows fr fid w tid img (row # rows) = drv_command fr ?t"
      using row eq Inl by simp
    then show ?thesis by (simp add: transport_outcome_drv)
  next
    case (Inr u)
    have "send_rows fr fid w tid img (row # rows) = send_rows fr1 fid w tid img rows"
      using row eq Inr by simp
    then show ?thesis
      using transport_outcome_step [OF eq [unfolded Inr] Cons.IH [OF rows]] by simp
  qed
qed

lemma shaped_setflags [simp]: "shaped (setflags fr w) = shaped fr"
  by (simp add: shaped_def setflags_def)

lemma transport_outcome_set_frame_data:
  assumes "shaped fr"
  shows "transport_outcome fr (set_frame_data fr frame_id)"
proof (cases "height fr = 1")
  case True
  then have "0 < length (as_img fr)" using assms by (simp add: shaped_def length_as_img)
  then show ?thesis
    using True
    by (simp add: set_frame_data_def set_frame_data_single_def row_bytes_def Let_def
        transport_outcome_drv)
next
  case False
  then show ?thesis
    using transport_outcome_send_rows [OF rows_in_img [OF assms]]
    by (simp add: set_frame_data_def set_frame_data_matrix_def Let_def)
qed

section \<open>Single-row mode\<close>

text \<open>
  Claim C9. A framebuffer of height exactly 1 is dispatched to
  \<open>_set_frame_data_single\<close>, and serialising it issues exactly one transaction:
  \<open>SET_FRAME_DATA_SINGLE\<close> with starting column 0, column count \<open>min W 24\<close>, the
  bytes of the first \<open>min W 24\<close> cells of row 0, and transaction id 0x80. The
  transaction is issued whatever the transport answers.
\<close>

theorem single_row_mode:
  assumes "height fr = 1" and "shaped fr"
  shows "set_frame_data fr frame_id =
           set_frame_data_single fr (case frame_id of None \<Rightarrow> 0xFF | Some i \<Rightarrow> i) \<and>
         sent (driver (snd (set_frame_data fr frame_id))) =
           sent (driver fr) @
           [FrameDataSingle 0 (min (width fr) 24)
              (concat (take (min (width fr) 24)
                 (map (\<lambda>px. px_bytes fr px (base_color fr)) (matrix fr ! 0))))
              (Some 0x80)]"
proof -
  have row0: "0 < length (matrix fr)" using assms by (simp add: shaped_def)
  then have img0: "0 < length (as_img fr)" by (simp add: length_as_img)
  show ?thesis
    using assms(1) img0 as_img_row [OF row0]
    by (simp add: set_frame_data_def set_frame_data_single_def row_bytes_def Let_def
        drv_command_def run_command_def MAX_WIDTH_def DEFAULT_FRAME_ID_def
        split: option.split)
qed

text \<open>The theorem at a 1x1 framebuffer: one transaction.\<close>

theorem single_row_mode_witness:
  "height (ex_frame 1 1 [[[1, 0, 0, 1]]]) = 1 \<and> shaped (ex_frame 1 1 [[[1, 0, 0, 1]]]) \<and>
   sent (driver (snd (set_frame_data (ex_frame 1 1 [[[1, 0, 0, 1]]]) None))) =
     [FrameDataSingle 0 1 [255, 0, 0] (Some 128)]"
proof -
  let ?F = "ex_frame 1 1 [[[1, 0, 0, 1]]]"
  have h: "height ?F = 1" by (simp add: ex_frame_def)
  have s: "shaped ?F" by (simp add: ex_frame_def shaped_def)
  show ?thesis
    using h s single_row_mode [OF h s, of None, THEN conjunct2]
    by (simp add: ex_frame_def ex_driver_def ex_px_def)
qed

section \<open>Errors of the transport\<close>

lemma set_frame_data_outcome:
  assumes "shaped fr" and "set_frame_data (setflags fr False) frame_id = (r, fr')"
  shows "\<exists>ts. fr' = fr\<lparr>writable := False,
                        driver := (driver fr)\<lparr>sent := sent (driver fr) @ ts\<rparr>\<rparr> \<and>
              (case r of Inr _ \<Rightarrow> True
               | Inl e \<Rightarrow> ts \<noteq> [] \<and> (\<exists>c. e = TransportError c \<and>
                    respond (driver fr) (sent (driver fr) @ butlast ts) (last ts) = Some c))"
proof -
  have "shaped (setflags fr False)" using assms(1) by simp
  from transport_outcome_set_frame_data [OF this, of frame_id]
  obtain ts where
    a: "fr' = (setflags fr False)\<lparr>driver := (driver (setflags fr False))
            \<lparr>sent := sent (driver (setflags fr False)) @ ts\<rparr>\<rparr>" and
    b: "case r of Inr _ \<Rightarrow> True
        | Inl e \<Rightarrow> ts \<noteq> [] \<and> (\<exists>c. e = TransportError c \<and>
             respond (driver (setflags fr False))
               (sent (driver (setflags fr False)) @ butlast ts) (last ts) = Some c)"
    unfolding transport_outcome_def assms(2) by auto
  have drv: "driver (setflags fr False) = driver fr" by (simp add: setflags_def)
  show ?thesis
    using a b unfolding drv
    by (intro exI [of _ ts]) (simp add: setflags_def)
qed





lemma answers_sent [simp]: "answers (d\<lparr>sent := s\<rparr>) h ts = answers d h ts"
  by (induction ts arbitrary: h) simp_all

lemma answers_Nil_iff [simp]: "answers d h ts = [] \<longleftrightarrow> ts = []"
  by (cases ts) simp_all














lemmas frame_eval =
  update_def prepare_def prepare_then_commit_def commit_def clear_def setflags_def
  set_frame_data_def set_frame_data_single_def set_frame_data_matrix_def
  row_bytes_def as_img_def rgba2rgb_def drv_command_def run_command_def
  MAX_WIDTH_def DEFAULT_FRAME_ID_def Let_def



section \<open>update against prepare followed by commit\<close>

text \<open>
  Claim C2 as stated fails: \<open>prepare\<close> ends with \<open>self.clear()\<close>,
  \<open>update\<close> does not. On a 1x1 framebuffer holding an opaque red cell,
  \<open>update\<close> leaves the cell and \<open>prepare\<close> followed by \<open>commit\<close> zeroes it.
\<close>

theorem update_prepare_commit_counterexample:
  "matrix (snd (update (ex_frame 1 1 [[[1, 0, 0, 1]]]) None)) = [[[1, 0, 0, 1]]] \<and>
   matrix (snd (prepare_then_commit (ex_frame 1 1 [[[1, 0, 0, 1]]]) None)) = [[[0, 0, 0, 0]]] \<and>
   snd (update (ex_frame 1 1 [[[1, 0, 0, 1]]]) None) \<noteq>
   snd (prepare_then_commit (ex_frame 1 1 [[[1, 0, 0, 1]]]) None)"
proof -
  let ?F = "ex_frame 1 1 [[[1, 0, 0, 1]]]"
  have a: "matrix (snd (update ?F None)) = [[[1, 0, 0, 1]]]"
    by (simp add: frame_eval ex_frame_def ex_driver_def ex_px_def)
  have b: "matrix (snd (prepare_then_commit ?F None)) = [[[0, 0, 0, 0]]]"
    by (simp add: frame_eval ex_frame_def ex_driver_def ex_px_def)
  have "matrix (snd (update ?F None)) \<noteq> matrix (snd (prepare_then_commit ?F None))"
    unfolding a b by simp
  then have "snd (update ?F None) \<noteq> snd (prepare_then_commit ?F None)"
    by auto
  with a b show ?thesis by simp
qed

text \<open>
  Claim C2, amended. \<open>update(frame_id)\<close> and \<open>prepare(frame_id)\<close> followed by
  \<open>commit()\<close> return or raise alike and leave the driver (its log of transactions)
  alike; every field of the framebuffer but the matrix ends alike too. \<open>update\<close>
  leaves the cells unchanged; \<open>prepare\<close> followed by \<open>commit\<close> leaves every
  cell zero when serialisation did not raise, and unchanged when it did.
\<close>

theorem update_vs_prepare_then_commit:
  assumes "shaped fr"
  shows "fst (prepare_then_commit fr frame_id) = fst (update fr frame_id) \<and>
         driver (snd (prepare_then_commit fr frame_id)) = driver (snd (update fr frame_id)) \<and>
         matrix (snd (update fr frame_id)) = matrix fr \<and>
         matrix (snd (prepare_then_commit fr frame_id)) =
           (case fst (set_frame_data (setflags fr False) frame_id) of
              Inl _ \<Rightarrow> matrix fr
            | Inr _ \<Rightarrow> map (map (map (\<lambda>_. 0))) (matrix fr)) \<and>
         snd (prepare_then_commit fr frame_id) =
           (snd (update fr frame_id))\<lparr>matrix := matrix (snd (prepare_then_commit fr frame_id))\<rparr>"
proof -
  obtain r fr' where eq: "set_frame_data (setflags fr False) frame_id = (r, fr')"
    by (cases "set_frame_data (setflags fr False) frame_id")
  from set_frame_data_outcome [OF assms eq] obtain ts where
    fr': "fr' = fr\<lparr>writable := False, driver := (driver fr)\<lparr>sent := sent (driver fr) @ ts\<rparr>\<rparr>"
    by blast
  show ?thesis
  proof (cases r)
    case (Inl e)
    then show ?thesis
      using eq by (simp add: update_def prepare_def prepare_then_commit_def fr' setflags_def)
  next
    case (Inr u)
    then show ?thesis
      using eq
      by (simp add: update_def prepare_def prepare_then_commit_def commit_def clear_def
          drv_command_def run_command_def fr' setflags_def split: option.split)
  qed
qed

text \<open>The amended statement at the 1x1 framebuffer of the counterexample.\<close>

theorem update_vs_prepare_then_commit_witness:
  "shaped (ex_frame 1 1 [[[1, 0, 0, 1]]]) \<and>
   fst (update (ex_frame 1 1 [[[1, 0, 0, 1]]]) None) = Inr () \<and>
   fst (prepare_then_commit (ex_frame 1 1 [[[1, 0, 0, 1]]]) None) = Inr () \<and>
   sent (driver (snd (update (ex_frame 1 1 [[[1, 0, 0, 1]]]) None))) =
     [FrameDataSingle 0 1 [255, 0, 0] (Some 128), CustomFrame] \<and>
   sent (driver (snd (prepare_then_commit (ex_frame 1 1 [[[1, 0, 0, 1]]]) None))) =
     [FrameDataSingle 0 1 [255, 0, 0] (Some 128), CustomFrame] \<and>
   matrix (snd (prepare_then_commit (ex_frame 1 1 [[[1, 0, 0, 1]]]) None)) = [[[0, 0, 0, 0]]]"
proof -
  let ?F = "ex_frame 1 1 [[[1, 0, 0, 1]]]"
  have s: "shaped ?F" by (simp add: ex_frame_def shaped_def)
  have u: "fst (update ?F None) = Inr ()"
    by (simp add: frame_eval ex_frame_def ex_driver_def ex_px_def)
  have d: "sent (driver (snd (update ?F None))) =
      [FrameDataSingle 0 1 [255, 0, 0] (Some 128), CustomFrame]"
    by (simp add: frame_eval ex_frame_def ex_driver_def ex_px_def)
  have m: "fst (set_frame_data (setflags ?F False) None) = Inr ()"
    by (simp add: frame_eval ex_frame_def ex_driver_def ex_px_def)
  have m0: "matrix ?F = [[[1, 0, 0, 1]]]" by (simp add: ex_frame_def)
  show ?thesis
    using s update_vs_prepare_then_commit [OF s, of None] u d m m0
    by simp
qed

section \<open>Pixels: put and get\<close>


lemma shaped_cell:
  "shaped fr \<Longrightarrow> r < height fr \<Longrightarrow> c < width fr \<Longrightarrow>
   r < length (matrix fr) \<and> c < length (matrix fr ! r) \<and> length (matrix fr ! r ! c) = 4"
  by (auto simp: shaped_def list_all_length)














section \<open>Lines and circles\<close>

text \<open>
  \<open>line\<close> raises on every call: \<open>_set_color\<close> unpacks its coordinate tuple
  into two names and \<open>line\<close> passes three arrays. Nothing is drawn.
\<close>

lemma line_raises: "line ext fr row1 col1 row2 col2 color = (Inl ValueError, fr)"
  by (simp add: line_def set_color_def Let_def)

text \<open>
  Claim C4 says the line and circle primitives never raise. \<open>line\<close> from (0, 0) to
  (1, 1) on a 2x2 framebuffer raises ValueError and leaves the framebuffer as it was.
\<close>

theorem line_raises_example:
  "line ex_externals (ex_frame 2 2 [[[0, 0, 0, 0], [0, 0, 0, 0]], [[0, 0, 0, 0], [0, 0, 0, 0]]])
     0 0 1 1 (Color 1 0 0 1) =
   (Inl ValueError, ex_frame 2 2 [[[0, 0, 0, 0], [0, 0, 0, 0]], [[0, 0, 0, 0], [0, 0, 0, 0]]])"
  by (simp add: line_def set_color_def Let_def)

text \<open>
  \<open>circle\<close> passes two arrays and does what the claim says: on a writable framebuffer
  it returns normally, the matrix keeps its shape, and a cell changes only if the
  rasteriser returned its coordinate (\<open>circle_clips\<close> below).
\<close>

lemma length_assign_cells: "length (assign_cells m ws) = length m"
  by (induction m ws rule: assign_cells.induct) simp_all

lemma assign_cells_row_length: "length (assign_cells m ws ! r) = length (m ! r)"
proof (induction m ws rule: assign_cells.induct)
  case (1 m)
  show ?case by simp
next
  case (2 m r' c v ws)
  have "length (m[r' := (m ! r')[c := v]] ! r) = length (m ! r)"
    by (cases "r' < length m") (simp_all add: nth_list_update list_update_beyond)
  with 2 show ?case by simp
qed

lemma assign_cells_untouched:
  "(r, c) \<notin> set (map (\<lambda>w. (fst w, fst (snd w))) ws) \<Longrightarrow> assign_cells m ws ! r ! c = m ! r ! c"
proof (induction m ws rule: assign_cells.induct)
  case (1 m)
  show ?case by simp
next
  case (2 m r' c' v ws)
  have ne: "(r, c) \<noteq> (r', c')" and rest: "(r, c) \<notin> set (map (\<lambda>w. (fst w, fst (snd w))) ws)"
    using "2.prems" by auto
  have "m[r' := (m ! r')[c' := v]] ! r ! c = m ! r ! c"
  proof (cases "r' < length m")
    case True
    then show ?thesis using ne by (cases "r = r'") (auto simp: nth_list_update)
  next
    case False
    then show ?thesis by (simp add: list_update_beyond)
  qed
  with "2.IH" [OF rest] show ?case by simp
qed

lemma list_all_update: "list_all P xs \<Longrightarrow> P x \<Longrightarrow> list_all P (xs[i := x])"
  by (induction xs arbitrary: i) (auto split: nat.splits)

lemma assign_cells_cell_length:
  "list_all (\<lambda>w. length (snd (snd w)) = 4) ws \<Longrightarrow>
   list_all (\<lambda>row. list_all (\<lambda>cell. length cell = 4) row) m \<Longrightarrow>
   list_all (\<lambda>row. list_all (\<lambda>cell. length cell = 4) row) (assign_cells m ws)"
proof (induction m ws rule: assign_cells.induct)
  case (1 m)
  then show ?case by simp
next
  case (2 m r c v ws)
  have v: "length v = 4" and ws: "list_all (\<lambda>w. length (snd (snd w)) = 4) ws"
    using "2.prems"(1) by simp_all
  have "list_all (\<lambda>row. list_all (\<lambda>cell. length cell = 4) row) (m[r := (m ! r)[c := v]])"
  proof (cases "r < length m")
    case True
    then have "list_all (\<lambda>cell. length cell = 4) (m ! r)"
      using "2.prems"(2) by (simp add: list_all_length)
    then have "list_all (\<lambda>cell. length cell = 4) ((m ! r)[c := v])"
      using v by (rule list_all_update)
    with "2.prems"(2) show ?thesis by (rule list_all_update)
  next
    case False
    then show ?thesis using "2.prems"(2) by (simp add: list_update_beyond)
  qed
  from "2.IH" [OF ws this] show ?case by simp
qed


lemma masked_zip3:
  "length cc = length rr \<Longrightarrow> length al = length rr \<Longrightarrow>
   zip (masked (map P (zip rr cc)) rr)
       (zip (masked (map P (zip rr cc)) cc) (masked (map P (zip rr cc)) al)) =
   filter (\<lambda>p. P (fst p, fst (snd p))) (zip rr (zip cc al))"
proof (induction rr arbitrary: cc al)
  case Nil
  then show ?case by (simp add: masked_def)
next
  case (Cons r rr)
  from Cons.prems obtain c cc' a al' where cc: "cc = c # cc'" and al: "al = a # al'"
    by (cases cc; cases al) auto
  have l1: "length cc' = length rr" and l2: "length al' = length rr"
    using Cons.prems cc al by simp_all
  show ?case
    using Cons.IH [OF l1 l2] by (simp add: cc al masked_def)
qed

lemma set_color_points:
  assumes "writable fr" and "length color = 4"
    and "length cc = length rr" and "length al = length rr"
    and "alpha = AlphaArr al \<or> (\<exists>a. alpha = Scalar a \<and> al = map (\<lambda>_. 1 * a) rr)"
  shows "set_color fr [IntArr rr, IntArr cc] color alpha =
           (Inr (), fr\<lparr>matrix := assign_cells (matrix fr)
              (map (\<lambda>(r, c, a). (nat r, nat c, map float32 (blend (matrix fr ! nat r ! nat c) color a)))
                 (filter (\<lambda>p. in_grid fr (fst p, fst (snd p))) (zip rr (zip cc al))))\<rparr>)"
proof -
  have al: "(case alpha of Scalar a \<Rightarrow> map (\<lambda>_. 1 * a) rr | AlphaArr v \<Rightarrow> v) = al"
    using assms(5) by auto
  have P: "(\<lambda>(r, c). 0 \<le> r \<and> r < int (height fr) \<and> 0 \<le> c \<and> c < int (width fr)) =
           (\<lambda>p. in_grid fr p)"
    by (auto simp: in_grid_def fun_eq_iff)
  show ?thesis
    using assms(1-4)
    by (simp add: set_color_def coords_inside_image_def Let_def al P
        masked_zip3 [OF assms(3) assms(4), of "\<lambda>p. in_grid fr p"])
qed

lemma length_blend: "length (blend old color a) = min (length old) (length color)"
  by (simp add: blend_def)

lemma set_color_clips:
  assumes "shaped fr" and "writable fr" and "length color = 4"
    and "length cc = length rr" and "length al = length rr"
    and "alpha = AlphaArr al \<or> (\<exists>a. alpha = Scalar a \<and> al = map (\<lambda>_. 1 * a) rr)"
  shows "fst (set_color fr [IntArr rr, IntArr cc] color alpha) = Inr () \<and>
         shaped (snd (set_color fr [IntArr rr, IntArr cc] color alpha)) \<and>
         (\<forall>r c. (int r, int c) \<notin> set (zip rr cc) \<longrightarrow>
            matrix (snd (set_color fr [IntArr rr, IntArr cc] color alpha)) ! r ! c =
            matrix fr ! r ! c)"
proof -
  let ?pts = "filter (\<lambda>p. in_grid fr (fst p, fst (snd p))) (zip rr (zip cc al))"
  let ?ws = "map (\<lambda>(r, c, a). (nat r, nat c, map float32 (blend (matrix fr ! nat r ! nat c) color a))) ?pts"
  have eq: "set_color fr [IntArr rr, IntArr cc] color alpha =
      (Inr (), fr\<lparr>matrix := assign_cells (matrix fr) ?ws\<rparr>)"
    by (rule set_color_points [OF assms(2-6)])
  have len4: "list_all (\<lambda>w. length (snd (snd w)) = 4) ?ws"
  proof -
    have "\<And>r c a. (r, c, a) \<in> set ?pts \<Longrightarrow>
        length (map float32 (blend (matrix fr ! nat r ! nat c) color a)) = 4"
    proof -
      fix r c a assume "(r, c, a) \<in> set ?pts"
      then have "in_grid fr (r, c)" by simp
      then have "nat r < height fr" "nat c < width fr" by (auto simp: in_grid_def)
      from shaped_cell [OF assms(1) this]
      show "length (map float32 (blend (matrix fr ! nat r ! nat c) color a)) = 4"
        using assms(3) by (simp add: length_blend)
    qed
    then show ?thesis by (auto simp: list_all_iff)
  qed
  have cells: "list_all (\<lambda>row. list_all (\<lambda>cell. length cell = 4) row) (matrix fr)"
    using assms(1) by (auto simp: shaped_def list_all_iff)
  have rows: "list_all (\<lambda>r. length r = width fr) (assign_cells (matrix fr) ?ws)"
    using assms(1)
    by (simp add: list_all_length length_assign_cells assign_cells_row_length shaped_def)
  have sh: "shaped (fr\<lparr>matrix := assign_cells (matrix fr) ?ws\<rparr>)"
    using assms(1) rows assign_cells_cell_length [OF len4 cells]
    by (simp add: shaped_def length_assign_cells list_all_length)
  have un: "\<And>r c. (int r, int c) \<notin> set (zip rr cc) \<Longrightarrow>
      assign_cells (matrix fr) ?ws ! r ! c = matrix fr ! r ! c"
  proof (rule assign_cells_untouched)
    fix r c assume out: "(int r, int c) \<notin> set (zip rr cc)"
    show "(r, c) \<notin> set (map (\<lambda>w. (fst w, fst (snd w))) ?ws)"
    proof
      assume "(r, c) \<in> set (map (\<lambda>w. (fst w, fst (snd w))) ?ws)"
      then obtain r' c' a where mem: "(r', c', a) \<in> set ?pts" and rc: "r = nat r'" "c = nat c'"
        by auto
      from mem have g: "in_grid fr (r', c')" and z: "(r', c', a) \<in> set (zip rr (zip cc al))"
        by simp_all
      from z have "(r', c') \<in> set (zip rr cc)"
        by (auto simp: in_set_zip)
      moreover have "int r = r'" "int c = c'" using g rc by (simp_all add: in_grid_def)
      ultimately show False using out by simp
    qed
  qed
  show ?thesis using eq sh un by simp
qed

lemma circle_clips:
  assumes "shaped fr" and "writable fr"
  shows "fst (circle ext fr row col radius color fill) = Inr () \<and>
         shaped (snd (circle ext fr row col radius color fill)) \<and>
         (\<forall>r c. (int r, int c) \<notin>
                  (if fill then set (draw_circle ext row col (py_round radius) (height fr, width fr))
                   else (\<lambda>p. (fst p, fst (snd p))) `
                        set (draw_circle_perimeter_aa ext row col (py_round radius) (height fr, width fr))) \<longrightarrow>
            matrix (snd (circle ext fr row col radius color fill)) ! r ! c = matrix fr ! r ! c)"
proof -
  have len4: "length (tuple_of color) = 4" by (cases color) (simp add: tuple_of_def)
  show ?thesis
  proof (cases fill)
    case True
    let ?pts = "draw_circle ext row col (py_round radius) (height fr, width fr)"
    have z: "zip (map fst ?pts) (map snd ?pts) = ?pts" by (simp add: zip_map_fst_snd)
    have "Scalar 1 = AlphaArr (map (\<lambda>_. 1) ?pts) \<or>
          (\<exists>a. Scalar 1 = Scalar a \<and> map (\<lambda>_. 1) ?pts = map (\<lambda>_. 1 * a) (map fst ?pts))"
      by (simp add: comp_def)
    from set_color_clips [OF assms len4 _ _ this]
    show ?thesis using True by (simp add: circle_def Let_def z)
  next
    case False
    let ?pts = "draw_circle_perimeter_aa ext row col (py_round radius) (height fr, width fr)"
    let ?rr = "map fst ?pts" and ?cc = "map (\<lambda>p. fst (snd p)) ?pts" and ?aa = "map (\<lambda>p. snd (snd p)) ?pts"
    have z: "set (zip ?rr ?cc) = (\<lambda>p. (fst p, fst (snd p))) ` set ?pts"
      by (simp add: zip_map_map zip_same_conv_map comp_def)
    have "AlphaArr ?aa = AlphaArr ?aa \<or> (\<exists>a. AlphaArr ?aa = Scalar a \<and> ?aa = map (\<lambda>_. 1 * a) ?rr)"
      by simp
    from set_color_clips [OF assms len4 _ _ this]
    show ?thesis using False by (simp add: circle_def Let_def z)
  qed
qed

section \<open>Adding a renderer\<close>

lemma add_renderer_unknown:
  "renderer_info m name = None \<Longrightarrow> add_renderer m name t = (Inr (- 1), m)"
  by (simp add: add_renderer_def get_renderer_def)

lemma add_renderer_import_error:
  "renderer_info m name = Some c \<Longrightarrow> construct c t = Some ImportError \<Longrightarrow>
   add_renderer m name t = (Inr (- 1), m)"
  by (simp add: add_renderer_def get_renderer_def)

lemma add_renderer_init_fails:
  "renderer_info m name = Some c \<Longrightarrow> construct c t = None \<Longrightarrow> \<not> init_result c t \<Longrightarrow>
   add_renderer m name t = (if has_name c then Inr (- 1) else Inl AttributeError, m)"
  by (simp add: add_renderer_def get_renderer_def Renderer_init_def)

lemma add_renderer_added:
  "renderer_info m name = Some c \<Longrightarrow> construct c t = None \<Longrightarrow> init_result c t \<Longrightarrow>
   add_renderer m name t =
     (Inr (int (length (renderers m))),
      m\<lparr>renderers := renderers m @ [Renderer_init c (int (length (renderers m))) t]\<rparr>)"
  by (simp add: add_renderer_def get_renderer_def Renderer_init_def)

text \<open>
  Claim C5 says \<open>add_renderer\<close> returns -1 and leaves the list unchanged whenever
  the loop is running. \<open>add_renderer\<close> never reads \<open>running\<close>: on a running
  manager that knows the kind, with \<open>init\<close> succeeding, it appends the renderer and
  returns its z-order 0. (The lemmas above are the rest of the claim: unknown kind and
  ImportError give -1, success gives the z-order and appends; a failed \<open>init\<close> gives
  -1 only when the renderer has the attribute \<open>name\<close> read by the error message.)
\<close>

theorem add_renderer_while_running:
  "running (ex_manager True []) \<and>
   add_renderer (ex_manager True []) ''uchroma.fxlib.Plasma'' [] =
     (Inr 0, (ex_manager True [])\<lparr>renderers := [Renderer_init ex_class 0 []]\<rparr>)"
  by (simp add: add_renderer_def get_renderer_def Renderer_init_def ex_manager_def ex_info_def
      ex_class_def)

section \<open>Committing the layers\<close>

text \<open>
  \<open>_commit_layers\<close> raises on every call and leaves the loop, its frame and the
  driver's log as they were: nothing is merged and nothing is transmitted.
\<close>

lemma commit_layers_raises: "commit_layers l = (Inl TypeError, l)"
  by (simp add: commit_layers_def call_commit_def)

text \<open>
  Claim C3 says each cycle merges the current layers into the device framebuffer in
  z-order and transmits it through \<open>update()\<close>. In a running loop with a ready
  layer, the pass after \<open>_get_layers\<close> raises TypeError out of \<open>_commit_layers\<close>
  (\<open>Frame.commit\<close> takes no layer argument); the frame is untouched and the driver
  has been sent nothing.
\<close>

theorem commit_layers_example:
  "animate_after_get_layers ex_loop = (Inl TypeError, ex_loop) \<and>
   sent (driver (loop_frame (snd (animate_after_get_layers ex_loop)))) = []"
  by (simp add: animate_after_get_layers_def commit_layers_def call_commit_def ex_loop_def
      AnimationLoop_init_def ex_frame_def ex_driver_def)

section \<open>A renderer's Layers in circulation\<close>

lemma step_circulating:
  assumes "step s e = Some s'"
  shows "circulating s' + (if e = Finish (Drawn False) then 1 else 0) \<le> circulating s"
proof (cases e)
  case Acquire
  with assms show ?thesis
    by (auto simp: run_acquire_def circulating_def split: if_splits list.splits)
next
  case (Finish res)
  with assms show ?thesis
    by (auto simp: run_finish_def circulating_def stop_renderer_def flush_def
        split: if_splits option.splits draw_result.splits)
next
  case Dequeue
  with assms show ?thesis
    by (auto simp: dequeue_def circulating_def free_layer_def Let_def
        split: if_splits option.splits list.splits sum.splits)
qed

lemma run_circulating:
  "run s es = Some s' \<Longrightarrow> circulating s' + dropped es \<le> circulating s"
proof (induction es arbitrary: s)
  case Nil
  then show ?case by (simp add: dropped_def)
next
  case (Cons e es)
  from Cons.prems obtain s1 where s1: "step s e = Some s1" and r: "run s1 es = Some s'"
    by (auto split: option.splits)
  from step_circulating [OF s1] Cons.IH [OF r] show ?case
    by (auto simp: dropped_def split: if_splits)
qed

lemma run_append:
  "run s (es @ es') = (case run s es of None \<Rightarrow> None | Some s1 \<Rightarrow> run s1 es')"
  by (induction es arbitrary: s) (auto split: option.splits)

lemma no_layer_no_acquire: "circulating s = 0 \<Longrightarrow> avail_q (rnd s) = [] \<and> run_acquire s = None"
  by (auto simp: circulating_def run_acquire_def)

text \<open>
  Claim C10. (1) When \<open>draw\<close> returns False in a running renderer, the rest of
  the iteration changes nothing but to let go of the Layer it holds: both queues and
  the loop's slot stay as they are, and one Layer fewer is in circulation. Taken as a
  whole, an iteration that takes Layer \<open>l\<close> from the free pool and draws False
  ends with the free pool at its old tail and \<open>l\<close> in neither queue. (2) No step of the renderer or of the
  loop's dequeue brings a Layer back: along any trace the Layers in circulation plus
  the iterations that ended with False never exceed the Layers at the start.
  (3) Starting from at most \<open>NUM_BUFFERS = 2\<close> Layers, once two iterations have
  ended with False the free pool is empty and \<open>_avail_q.get()\<close> stays suspended, in
  that state and in every state any further trace reaches.
\<close>

theorem draw_false_loses_layer:
  "(rnd_running (rnd sd) \<and> in_draw sd = Some ld \<longrightarrow>
      step sd (Finish (Drawn False)) = Some (sd\<lparr>in_draw := None\<rparr>) \<and>
      circulating (sd\<lparr>in_draw := None\<rparr>) + 1 = circulating sd) \<and>
   (rnd_running (rnd s) \<and> avail_q (rnd s) = l # q \<and> in_draw s = None \<longrightarrow>
      (\<exists>s1. run s [Acquire, Finish (Drawn False)] = Some s1 \<and>
            avail_q (rnd s1) = q \<and> active_q (rnd s1) = active_q (rnd s) \<and>
            in_draw s1 = None \<and> last_known s1 = last_known s \<and>
            circulating s1 + 1 = circulating s)) \<and>
   (run s es = Some s' \<longrightarrow> circulating s' + dropped es \<le> circulating s) \<and>
   (circulating s \<le> NUM_BUFFERS \<and> 2 \<le> dropped es \<and> run s es = Some s' \<longrightarrow>
      avail_q (rnd s') = [] \<and> run_acquire s' = None \<and>
      (\<forall>es' s''. run s' es' = Some s'' \<longrightarrow> avail_q (rnd s'') = [] \<and> run_acquire s'' = None))"
proof (intro conjI impI)
  assume "rnd_running (rnd sd) \<and> in_draw sd = Some ld"
  then show "step sd (Finish (Drawn False)) = Some (sd\<lparr>in_draw := None\<rparr>)"
    by (simp add: run_finish_def)
next
  assume "rnd_running (rnd sd) \<and> in_draw sd = Some ld"
  then show "circulating (sd\<lparr>in_draw := None\<rparr>) + 1 = circulating sd"
    by (simp add: circulating_def)
next
  assume a: "rnd_running (rnd s) \<and> avail_q (rnd s) = l # q \<and> in_draw s = None"
  then show "\<exists>s1. run s [Acquire, Finish (Drawn False)] = Some s1 \<and>
            avail_q (rnd s1) = q \<and> active_q (rnd s1) = active_q (rnd s) \<and>
            in_draw s1 = None \<and> last_known s1 = last_known s \<and>
            circulating s1 + 1 = circulating s"
    by (simp add: run_acquire_def run_finish_def circulating_def)
next
  assume "run s es = Some s'"
  then show "circulating s' + dropped es \<le> circulating s" by (rule run_circulating)
next
  assume a: "circulating s \<le> NUM_BUFFERS \<and> 2 \<le> dropped es \<and> run s es = Some s'"
  then have z: "circulating s' = 0"
    using run_circulating [of s es s'] by (simp add: NUM_BUFFERS_def)
  from no_layer_no_acquire [OF z] show "avail_q (rnd s') = []" by simp
  from no_layer_no_acquire [OF z] show "run_acquire s' = None" by simp
  show "\<forall>es' s''. run s' es' = Some s'' \<longrightarrow> avail_q (rnd s'') = [] \<and> run_acquire s'' = None"
  proof (intro allI impI)
    fix es' s'' assume "run s' es' = Some s''"
    from run_circulating [OF this] z have "circulating s'' = 0" by simp
    from no_layer_no_acquire [OF this]
    show "avail_q (rnd s'') = [] \<and> run_acquire s'' = None" .
  qed
qed


text \<open>
  The theorem at a running renderer with its two fresh Layers: two iterations with
  \<open>draw\<close> returning False empty the free pool, and the next \<open>get\<close> suspends.
\<close>

theorem draw_false_loses_layer_witness:
  "rnd_running (rnd (ex_circulation\<lparr>in_draw := Some ex_layer\<rparr>)) \<and>
   in_draw (ex_circulation\<lparr>in_draw := Some ex_layer\<rparr>) = Some ex_layer \<and>
   step (ex_circulation\<lparr>in_draw := Some ex_layer\<rparr>) (Finish (Drawn False)) =
     Some ex_circulation \<and>
   rnd_running (rnd ex_circulation) \<and> avail_q (rnd ex_circulation) = [ex_layer, ex_layer] \<and>
   in_draw ex_circulation = None \<and> circulating ex_circulation \<le> NUM_BUFFERS \<and>
   2 \<le> dropped [Acquire, Finish (Drawn False), Acquire, Finish (Drawn False)] \<and>
   run ex_circulation [Acquire, Finish (Drawn False), Acquire, Finish (Drawn False)] =
     Some (ex_circulation\<lparr>rnd := (rnd ex_circulation)\<lparr>avail_q := []\<rparr>\<rparr>) \<and>
   run_acquire (ex_circulation\<lparr>rnd := (rnd ex_circulation)\<lparr>avail_q := []\<rparr>\<rparr>) = None"
proof -
  let ?es = "[Acquire, Finish (Drawn False), Acquire, Finish (Drawn False)]"
  let ?s' = "ex_circulation\<lparr>rnd := (rnd ex_circulation)\<lparr>avail_q := []\<rparr>\<rparr>"
  have a: "rnd_running (rnd ex_circulation)" "avail_q (rnd ex_circulation) = [ex_layer, ex_layer]"
    "in_draw ex_circulation = None"
    by (simp_all add: ex_circulation_def Renderer_init_def)
  have c: "circulating ex_circulation \<le> NUM_BUFFERS"
    by (simp add: circulating_def ex_circulation_def Renderer_init_def NUM_BUFFERS_def)
  have d: "2 \<le> dropped ?es" by (simp add: dropped_def)
  have r: "run ex_circulation ?es = Some ?s'"
    by (simp add: run_acquire_def run_finish_def ex_circulation_def Renderer_init_def)
  let ?sd = "ex_circulation\<lparr>in_draw := Some ex_layer\<rparr>"
  have b: "rnd_running (rnd ?sd)" "in_draw ?sd = Some ex_layer"
    by (simp_all add: ex_circulation_def Renderer_init_def)
  have n: "?sd\<lparr>in_draw := None\<rparr> = ex_circulation"
    by (simp add: ex_circulation_def)
  note inst = draw_false_loses_layer [of ?sd ex_layer ex_circulation ex_layer "[ex_layer]" ?es ?s']
  from inst b have f: "step ?sd (Finish (Drawn False)) = Some ex_circulation"
    unfolding n by blast
  from inst have "run_acquire ?s' = None" using c d r by blast
  with a b c d r f show ?thesis by simp
qed

section \<open>Starting the loop and the manager\<close>

lemma update_accepting:
  assumes "shaped fr" and "accepting (driver fr)"
  shows "\<exists>ts. update fr frame_id =
           (Inr (), fr\<lparr>writable := True, driver := (driver fr)\<lparr>sent := sent (driver fr) @ ts\<rparr>\<rparr>)"
proof -
  obtain r fr' where eq: "set_frame_data (setflags fr False) frame_id = (r, fr')"
    by (cases "set_frame_data (setflags fr False) frame_id")
  from set_frame_data_outcome [OF assms(1) eq] obtain ts where
    fr': "fr' = fr\<lparr>writable := False, driver := (driver fr)\<lparr>sent := sent (driver fr) @ ts\<rparr>\<rparr>" and
    r: "case r of Inr _ \<Rightarrow> True
        | Inl e \<Rightarrow> ts \<noteq> [] \<and> (\<exists>c. e = TransportError c \<and>
              respond (driver fr) (sent (driver fr) @ butlast ts) (last ts) = Some c)"
    by blast
  have ok: "r = Inr ()"
    using r assms(2) by (cases r) (auto simp: accepting_def)
  have acc: "accepting (driver fr')" using assms(2) by (simp add: fr')
  have "update fr frame_id =
      (Inr (), fr\<lparr>writable := True,
                 driver := (driver fr)\<lparr>sent := sent (driver fr) @ (ts @ [CustomFrame])\<rparr>\<rparr>)"
    using eq ok drv_command_accepting [OF acc, of CustomFrame]
    by (simp add: update_def commit_def setflags_def fr')
  then show ?thesis by blast
qed

lemma reset_accepting:
  assumes "shaped fr" and "writable fr" and "accepting (driver fr)"
  shows "\<exists>ts. reset fr frame_id =
           (Inr (), fr\<lparr>matrix := map (map (map (\<lambda>_. 0))) (matrix fr),
                      driver := (driver fr)\<lparr>sent := sent (driver fr) @ ts\<rparr>\<rparr>)"
proof -
  let ?fr = "fr\<lparr>matrix := map (map (map (\<lambda>_. 0))) (matrix fr)\<rparr>"
  have s: "shaped ?fr" using assms(1) by (simp add: shaped_def list_all_iff)
  have a: "accepting (driver ?fr)" using assms(3) by simp
  from update_accepting [OF s a, of frame_id] obtain ts where
    "update ?fr frame_id =
       (Inr (), ?fr\<lparr>writable := True, driver := (driver ?fr)\<lparr>sent := sent (driver ?fr) @ ts\<rparr>\<rparr>)"
    by blast
  then have "reset fr frame_id =
      (Inr (), fr\<lparr>matrix := map (map (map (\<lambda>_. 0))) (matrix fr),
                 driver := (driver fr)\<lparr>sent := sent (driver fr) @ ts\<rparr>\<rparr>)"
    using assms(2) by (simp add: reset_def clear_def)
  then show ?thesis by blast
qed

lemma loop_start_refused:
  "loop_running l \<or> loop_renderers l = [] \<Longrightarrow> loop_start l = (Inr False, l)"
  by (auto simp: loop_start_def)

lemma start_refused: "running m \<or> renderers m = [] \<Longrightarrow> start m bm = (Inr False, m)"
  by (auto simp: start_def)

text \<open>
  Past the two refusals \<open>start\<close> does not return: once the frame has been reset and
  the loop's running flag set, \<open>_create_buffers\<close> flushes the first renderer and
  raises AttributeError at \<open>self._frame.create_layer()\<close>. No Layer is allocated, the
  loop's running flag stays set, and the manager's own flag stays false.
\<close>

lemma load_renderers_raises:
  "rs \<noteq> [] \<Longrightarrow> load_renderers fr bm rs = (Inl AttributeError, flush (hd rs) # tl rs)"
  by (cases rs) (simp_all add: NUM_BUFFERS_def numeral_2_eq_2 create_layer_def)

lemma loop_start_raises:
  assumes "\<not> loop_running l" and "loop_renderers l \<noteq> []"
    and "shaped (loop_frame l)" and "writable (loop_frame l)" and "accepting (driver (loop_frame l))"
  shows "fst (loop_start l) = Inl AttributeError \<and>
         loop_running (snd (loop_start l)) \<and> anim_task (snd (loop_start l)) = anim_task l \<and>
         loop_renderers (snd (loop_start l)) = flush (hd (loop_renderers l)) # tl (loop_renderers l)"
proof -
  from reset_accepting [OF assms(3-5), of None] obtain ts where
    rs: "reset (loop_frame l) None =
       (Inr (), (loop_frame l)\<lparr>matrix := map (map (map (\<lambda>_. 0))) (matrix (loop_frame l)),
          driver := (driver (loop_frame l))\<lparr>sent := sent (driver (loop_frame l)) @ ts\<rparr>\<rparr>)"
    by blast
  show ?thesis
    using assms(1,2) load_renderers_raises [OF assms(2)]
    by (simp add: loop_start_def rs create_buffers_def Let_def)
qed

lemma start_raises:
  assumes "\<not> running m" and "renderers m \<noteq> []"
    and "shaped (frame_control m)" and "writable (frame_control m)"
    and "accepting (driver (frame_control m))"
  shows "fst (start m bm) = Inl AttributeError \<and> \<not> running (snd (start m bm)) \<and>
         renderers (snd (start m bm)) = flush (hd (renderers m)) # tl (renderers m)"
proof -
  let ?l = "AnimationLoop_init (frame_control m) (renderers m) bm"
  have l: "\<not> loop_running ?l" "loop_renderers ?l \<noteq> []" "shaped (loop_frame ?l)"
    "writable (loop_frame ?l)" "accepting (driver (loop_frame ?l))"
    using assms by (simp_all add: AnimationLoop_init_def)
  have f: "loop_renderers ?l = renderers m" by (simp add: AnimationLoop_init_def)
  obtain res l' where eq: "loop_start ?l = (res, l')" by (cases "loop_start ?l")
  from loop_start_raises [OF l] have r: "res = Inl AttributeError"
    and rs: "loop_renderers l' = flush (hd (renderers m)) # tl (renderers m)"
    unfolding eq f by simp_all
  show ?thesis
    using assms(1,2) by (simp add: start_def eq r rs Let_def)
qed

text \<open>
  Claim C6 as stated fails: started while already running, the manager returns False
  and its running flag is (still) true, not false.
\<close>

theorem start_counterexample:
  "running (ex_manager True [Renderer_init ex_class 0 []]) \<and>
   fst (start (ex_manager True [Renderer_init ex_class 0 []]) None) = Inr False \<and>
   running (snd (start (ex_manager True [Renderer_init ex_class 0 []]) None))"
  by (simp add: start_def ex_manager_def)

text \<open>
  Claim C6, amended. Started with no renderer or while already running, the manager
  returns False and leaves its whole state as it was, the running flag included: the
  flag stays false where it was false and stays true where the manager was running.
  The same holds of the loop's own \<open>start\<close>.
\<close>

theorem start_outcomes:
  "(running m \<or> renderers m = [] \<longrightarrow> start m bm = (Inr False, m)) \<and>
   (loop_running l \<or> loop_renderers l = [] \<longrightarrow> loop_start l = (Inr False, l))"
  by (simp add: start_refused loop_start_refused)

text \<open>
  The theorem at a manager without renderers, at a running manager with one renderer,
  and at a running loop.
\<close>

theorem start_outcomes_witness:
  "renderers (ex_manager False []) = [] \<and> \<not> running (ex_manager False []) \<and>
   start (ex_manager False []) None = (Inr False, ex_manager False []) \<and>
   running (ex_manager True [Renderer_init ex_class 0 []]) \<and>
   start (ex_manager True [Renderer_init ex_class 0 []]) None =
     (Inr False, ex_manager True [Renderer_init ex_class 0 []]) \<and>
   loop_running ex_loop \<and> loop_start ex_loop = (Inr False, ex_loop)"
proof -
  let ?E = "ex_manager False []"
  let ?R = "ex_manager True [Renderer_init ex_class 0 []]"
  have e: "renderers ?E = []" "\<not> running ?E" by (simp_all add: ex_manager_def)
  have r: "running ?R" by (simp add: ex_manager_def)
  have lr: "loop_running ex_loop" by (simp add: ex_loop_def)
  from start_outcomes [of ?E None ex_loop] e lr
  have a: "start ?E None = (Inr False, ?E)" "loop_start ex_loop = (Inr False, ex_loop)"
    by blast+
  from start_outcomes [of ?R None ex_loop] r
  have b: "start ?R None = (Inr False, ?R)" by blast
  show ?thesis using e r lr a b by simp
qed

end
